theory Spec2Isabelle
  imports Main
begin

section \<open>Data model of \<open>src/lib/verification.ts\<close>\<close>

text \<open>
  The JSON shapes of the two remote sources, as the TypeScript interfaces declare them.
  A field the payload may lack is an \<open>option\<close>. In a hit, an absent or empty
  \<open>app_id\<close> is the empty string (both are falsy in the test of line 149) and an absent
  \<open>verification_verified\<close> is \<open>False\<close>.
\<close>

record hit =
  app_id :: string
  verification_verified :: bool

text \<open>
  \<open>hits = None\<close>: the body has no iterable \<open>hits\<close>, so the \<open>for ... of\<close> of line 148
  throws. An element \<open>None\<close> of the array is a \<open>null\<close> entry, whose property access
  throws. \<open>totalPages = None\<close>: the field is absent, and \<open>page < undefined\<close> is false.
\<close>

record flathub_response =
  hits :: "hit option list option"
  totalPages :: "int option"

datatype publisher_info = Publisher (validation: "string option")
datatype snap_info = Snap (publisher: "publisher_info option")
datatype snap_info_response = SnapInfoResponse (snap: "snap_info option")

text \<open>
  What one \<open>await fetch(...)\<close> followed by \<open>await response.json()\<close> can give:
  the fetch promise rejects (transport error, or the timeout aborts it), or a response
  arrives with a status and a body; the body fails to parse, is the JSON \<open>null\<close>, or
  is an object of the expected interface.
\<close>

datatype 'a body = Unparsable | Null | Data 'a
datatype 'a outcome = Rejected | Response nat "'a body"

text \<open>\<open>response.ok\<close>: the status is in the range 200-299.\<close>

definition ok :: "nat \<Rightarrow> bool" where
  "ok status = (200 \<le> status \<and> status \<le> 299)"

datatype js_error = NetworkError | SyntaxError | TypeError

text \<open>
  Every call of \<open>fetch\<close> is logged. A request is answered by the environment, a
  function of the request's position in the log (its ticket) and of what it asks for,
  so that two requests for the same thing may be answered differently.
\<close>

datatype request = Flathub_Page (page_no: nat) (per_page: nat) | Snap_Info string

type_synonym flathub_api = "nat \<Rightarrow> nat \<Rightarrow> flathub_response outcome"
type_synonym snap_api = "nat \<Rightarrow> string \<Rightarrow> snap_info_response outcome"

text \<open>
  The module-level variables \<open>flathubVerifiedCache\<close> (line 31, \<open>null\<close> is \<open>None\<close>) and
  \<open>snapVerifiedCache\<close> (line 32), with the log of the requests issued so far.
\<close>

record world =
  flathubVerifiedCache :: "string set option"
  snapVerifiedCache :: "string \<rightharpoonup> bool"
  requests :: "request list"

definition initial_world :: world where
  "initial_world = \<lparr>flathubVerifiedCache = None, snapVerifiedCache = Map.empty, requests = []\<rparr>"

text \<open>\<open>KNOWN_VERIFIED_SNAP_PACKAGES\<close>, lines 44-110, in the order of the literal.\<close>

definition KNOWN_VERIFIED_SNAP_PACKAGES :: "string list" where
  "KNOWN_VERIFIED_SNAP_PACKAGES =
    [''firefox'', ''thunderbird'', ''chromium'', ''vlc'', ''brave'', ''spotify'', ''code'',
     ''intellij-idea-community'', ''intellij-idea-ultimate'', ''pycharm-community'',
     ''pycharm-professional'', ''slack'', ''discord'', ''signal-desktop'',
     ''telegram-desktop'', ''zoom-client'', ''obsidian'', ''bitwarden'', ''blender'',
     ''gimp'', ''inkscape'', ''krita'', ''libreoffice'', ''obs-studio'', ''vlc'', ''node'',
     ''go'', ''rustup'', ''ruby'', ''cmake'', ''docker'', ''kubectl'', ''steam'',
     ''retroarch'', ''vivaldi'']"

text \<open>\<open>s.split(' ')[0]\<close>: the text before the first space (all of it when there is none).\<close>

definition split_first :: "string \<Rightarrow> string" where
  "split_first s = takeWhile (\<lambda>c. c \<noteq> CHR '' '') s"

section \<open>The synchronous queries\<close>

text \<open>\<open>isFlathubVerified\<close>, lines 249-251.\<close>

definition isFlathubVerified :: "world \<Rightarrow> string \<Rightarrow> bool" where
  "isFlathubVerified w appId =
     (case flathubVerifiedCache w of None \<Rightarrow> False | Some c \<Rightarrow> appId \<in> c)"

text \<open>\<open>isSnapVerified\<close>, lines 258-269.\<close>

definition isSnapVerified :: "world \<Rightarrow> string \<Rightarrow> bool" where
  "isSnapVerified w snapName =
     (let cleanName = split_first snapName in
      if cleanName \<in> set KNOWN_VERIFIED_SNAP_PACKAGES then True
      else (case snapVerifiedCache w cleanName of
              Some b \<Rightarrow> b
            | None \<Rightarrow> (case snapVerifiedCache w snapName of Some b \<Rightarrow> b | None \<Rightarrow> False)))"

text \<open>\<open>clearVerificationCache\<close>, lines 274-277.\<close>

definition clearVerificationCache :: "world \<Rightarrow> world" where
  "clearVerificationCache w = w\<lparr>flathubVerifiedCache := None, snapVerifiedCache := Map.empty\<rparr>"

section \<open>The bulk fetch\<close>

text \<open>
  The \<open>for\<close> loop of lines 148-152 over the hits of one page. The set is updated in
  place, so what was added before a throw stays added.
\<close>

fun add_hits :: "hit option list \<Rightarrow> string set \<Rightarrow> js_error option \<times> string set" where
  "add_hits [] verifiedApps = (None, verifiedApps)"
| "add_hits (None # hs) verifiedApps = (Some TypeError, verifiedApps)"
| "add_hits (Some h # hs) verifiedApps =
     add_hits hs (if verification_verified h \<and> app_id h \<noteq> [] then insert (app_id h) verifiedApps
                  else verifiedApps)"

text \<open>
  One turn of the \<open>while\<close> loop, lines 130-159, from the answer to its request: the
  loop goes on with the next page, leaves (by \<open>break\<close> or because \<open>hasMore\<close> is false),
  or throws into the \<open>catch\<close> of line 161.
\<close>

datatype turn = Continue nat "string set" | Leave "string set" | Throw js_error "string set"

definition page_turn :: "flathub_response outcome \<Rightarrow> nat \<Rightarrow> string set \<Rightarrow> turn" where
  "page_turn r page verifiedApps =
     (case r of
        Rejected \<Rightarrow> Throw NetworkError verifiedApps
      | Response status b \<Rightarrow>
          if \<not> ok status then Leave verifiedApps
          else (case b of
                  Unparsable \<Rightarrow> Throw SyntaxError verifiedApps
                | Null \<Rightarrow> Throw TypeError verifiedApps
                | Data d \<Rightarrow>
                    (case hits d of
                       None \<Rightarrow> Throw TypeError verifiedApps
                     | Some hs \<Rightarrow>
                         (case add_hits hs verifiedApps of
                            (Some e, apps) \<Rightarrow> Throw e apps
                          | (None, apps) \<Rightarrow>
                              (let hasMore = (case totalPages d of
                                                None \<Rightarrow> False
                                              | Some t \<Rightarrow> int page < t);
                                   page' = page + 1
                               in if page' > 10 then Leave apps
                                  else if hasMore then Continue page' apps
                                  else Leave apps)))))"

lemma page_turn_Continue:
  "page_turn r page apps = Continue page' apps' \<Longrightarrow> page' = page + 1 \<and> page' \<le> 10"
  by (auto simp: page_turn_def Let_def split: outcome.splits body.splits option.splits
        prod.splits if_splits)

text \<open>
  The \<open>while\<close> loop, lines 129-160: each turn issues the request of line 130 for the
  current page with \<open>per_page=250\<close>. The result is the error thrown (if any), the set
  as the loop left it, and the log.
\<close>

function pages_loop ::
  "flathub_api \<Rightarrow> nat \<Rightarrow> string set \<Rightarrow> request list
     \<Rightarrow> js_error option \<times> string set \<times> request list" where
  "pages_loop api page verifiedApps log =
     (let ticket = length log; log' = log @ [Flathub_Page page 250] in
      case page_turn (api ticket page) page verifiedApps of
        Continue page' apps \<Rightarrow> pages_loop api page' apps log'
      | Leave apps \<Rightarrow> (None, apps, log')
      | Throw e apps \<Rightarrow> (Some e, apps, log'))"
  by pat_completeness auto
termination
  by (relation "measure (\<lambda>(api, page, apps, log). 11 - page)")
    (auto dest!: page_turn_Continue)

declare pages_loop.simps [simp del]

text \<open>
  \<open>fetchFlathubVerifiedApps\<close>, lines 116-169, run without another task in between.
  Whatever the \<open>try\<close> block throws, the \<open>catch\<close> only logs a warning; the set built so
  far is cached and returned. \<open>Inl\<close> would be a rejection of the returned promise.
\<close>

definition fetchFlathubVerifiedApps ::
  "flathub_api \<Rightarrow> world \<Rightarrow> (js_error + string set) \<times> world" where
  "fetchFlathubVerifiedApps api w =
     (case flathubVerifiedCache w of
        Some c \<Rightarrow> (Inr c, w)
      | None \<Rightarrow>
          (case pages_loop api 1 {} (requests w) of
             (thrown, verifiedApps, log) \<Rightarrow>
               (Inr verifiedApps,
                w\<lparr>flathubVerifiedCache := Some verifiedApps, requests := log\<rparr>)))"

text \<open>
  The same function as a task on the event loop, for calls that overlap. A call runs
  synchronously up to its first \<open>await\<close> (\<open>bulk_call\<close>: the cache test of line
  118 and the request for page 1); it is then suspended with its page number and its
  own set until the answer to its request (named by the ticket) arrives, and
  \<open>bulk_resume\<close> runs it up to its next \<open>await\<close> or to its return, lines 166-168.
\<close>

datatype bulk_task = Awaiting nat nat "string set" | Resolved "string set"

definition bulk_call :: "world \<Rightarrow> bulk_task \<times> world" where
  "bulk_call w =
     (case flathubVerifiedCache w of
        Some c \<Rightarrow> (Resolved c, w)
      | None \<Rightarrow>
          (Awaiting (length (requests w)) 1 {},
           w\<lparr>requests := requests w @ [Flathub_Page 1 250]\<rparr>))"

definition bulk_resume :: "flathub_api \<Rightarrow> bulk_task \<Rightarrow> world \<Rightarrow> bulk_task \<times> world" where
  "bulk_resume api t w =
     (case t of
        Resolved c \<Rightarrow> (t, w)
      | Awaiting ticket page verifiedApps \<Rightarrow>
          (case page_turn (api ticket page) page verifiedApps of
             Continue page' apps \<Rightarrow>
               (Awaiting (length (requests w)) page' apps,
                w\<lparr>requests := requests w @ [Flathub_Page page' 250]\<rparr>)
           | Leave apps \<Rightarrow> (Resolved apps, w\<lparr>flathubVerifiedCache := Some apps\<rparr>)
           | Throw e apps \<Rightarrow> (Resolved apps, w\<lparr>flathubVerifiedCache := Some apps\<rparr>)))"

text \<open>A task resumed again and again, nothing else running, until it has returned.\<close>

function run_alone :: "flathub_api \<Rightarrow> bulk_task \<Rightarrow> world \<Rightarrow> string set \<times> world" where
  "run_alone api (Resolved c) w = (c, w)"
| "run_alone api (Awaiting ticket page apps) w =
     (case bulk_resume api (Awaiting ticket page apps) w of (t', w') \<Rightarrow> run_alone api t' w')"
  by pat_completeness auto
termination
  by (relation "measure (\<lambda>(api, t, w). case t of Resolved c \<Rightarrow> 0 | Awaiting k page a \<Rightarrow> Suc (11 - page))")
    (auto simp: bulk_resume_def split: turn.splits bulk_task.splits dest!: page_turn_Continue)

section \<open>The per-item fetch\<close>

text \<open>
  The \<open>try\<close> block of \<open>fetchSnapVerification\<close>, lines 185-206, from the answer to its
  request: the value it is about to cache and return, or the error it throws.
\<close>

definition snap_try :: "snap_info_response outcome \<Rightarrow> js_error + bool" where
  "snap_try r =
     (case r of
        Rejected \<Rightarrow> Inl NetworkError
      | Response status b \<Rightarrow>
          if \<not> ok status then Inr False
          else (case b of
                  Unparsable \<Rightarrow> Inl SyntaxError
                | Null \<Rightarrow> Inl TypeError
                | Data d \<Rightarrow>
                    Inr (case snap d of
                           None \<Rightarrow> False
                         | Some s \<Rightarrow>
                             (case publisher s of
                                None \<Rightarrow> False
                              | Some p \<Rightarrow> validation p = Some ''verified''))))"

text \<open>
  \<open>fetchSnapVerification\<close>, lines 175-213. The cache is read and written under
  \<open>snapName\<close> as given; \<open>cleanName\<close> only addresses the request.
\<close>

definition fetchSnapVerification ::
  "snap_api \<Rightarrow> string \<Rightarrow> world \<Rightarrow> (js_error + bool) \<times> world" where
  "fetchSnapVerification api snapName w =
     (case snapVerifiedCache w snapName of
        Some b \<Rightarrow> (Inr b, w)
      | None \<Rightarrow>
          (let cleanName = split_first snapName;
               ticket = length (requests w);
               w1 = w\<lparr>requests := requests w @ [Snap_Info cleanName]\<rparr>
           in case snap_try (api ticket cleanName) of
                Inr verified \<Rightarrow>
                  (Inr verified,
                   w1\<lparr>snapVerifiedCache := (snapVerifiedCache w1)(snapName \<mapsto> verified)\<rparr>)
              | Inl error \<Rightarrow>
                  (Inr False,
                   w1\<lparr>snapVerifiedCache := (snapVerifiedCache w1)(snapName \<mapsto> False)\<rparr>)))"

section \<open>The many-item fetch\<close>

text \<open>
  \<open>[...new Set(snapPackages)]\<close>, line 223: a \<open>Set\<close> keeps its elements in the order
  of their first insertion.
\<close>

definition set_add :: "string list \<Rightarrow> string \<Rightarrow> string list" where
  "set_add s x = (if x \<in> set s then s else s @ [x])"

definition unique_of :: "string list \<Rightarrow> string list" where
  "unique_of xs = foldl set_add [] xs"

text \<open>
  \<open>Promise.all\<close> over one batch, lines 230-235. The calls start in the order of the
  batch, so their requests are logged in that order; the names of a batch are
  distinct, so each call reads and writes a cache entry of its own and the calls are
  run here one after the other. A rejected call rejects the whole.
\<close>

fun fetch_batch ::
  "snap_api \<Rightarrow> string list \<Rightarrow> world \<Rightarrow> (js_error + (string \<times> bool) list) \<times> world" where
  "fetch_batch api [] w = (Inr [], w)"
| "fetch_batch api (pkg # rest) w =
     (case fetchSnapVerification api pkg w of
        (Inl e, w') \<Rightarrow> (Inl e, w')
      | (Inr verified, w') \<Rightarrow>
          (case fetch_batch api rest w' of
             (Inl e, w'') \<Rightarrow> (Inl e, w'')
           | (Inr rs, w'') \<Rightarrow> (Inr ((pkg, verified) # rs), w'')))"

text \<open>The \<open>for\<close> loop of lines 237-239.\<close>

definition set_results :: "(string \<times> bool) list \<Rightarrow> (string \<rightharpoonup> bool) \<Rightarrow> (string \<rightharpoonup> bool)" where
  "set_results batchResults results = fold (\<lambda>(pkg, verified) m. m(pkg \<mapsto> verified)) batchResults results"

text \<open>
  The loop of lines 228-240, \<open>BATCH_SIZE = 5\<close>; \<open>slice(i, i + 5)\<close> is
  \<open>take 5 (drop i uniquePackages)\<close>. Beside the map, the result lists the batches in
  the order the loop issued them.
\<close>

function batches_loop ::
  "snap_api \<Rightarrow> string list \<Rightarrow> nat \<Rightarrow> (string \<rightharpoonup> bool) \<Rightarrow> string list list \<Rightarrow> world
     \<Rightarrow> (js_error + (string \<rightharpoonup> bool)) \<times> string list list \<times> world" where
  "batches_loop api uniquePackages i results issued w =
     (if i < length uniquePackages then
        (let batch = take 5 (drop i uniquePackages) in
         case fetch_batch api batch w of
           (Inl e, w') \<Rightarrow> (Inl e, issued @ [batch], w')
         | (Inr batchResults, w') \<Rightarrow>
             batches_loop api uniquePackages (i + 5) (set_results batchResults results)
               (issued @ [batch]) w')
      else (Inr results, issued, w))"
  by pat_completeness auto
termination
  by (relation "measure (\<lambda>(api, uniquePackages, i, results, issued, w). length uniquePackages - i)")
    auto

declare batches_loop.simps [simp del]

text \<open>\<open>fetchAllSnapVerifications\<close>, lines 219-243.\<close>

definition fetchAllSnapVerifications ::
  "snap_api \<Rightarrow> string list \<Rightarrow> world
     \<Rightarrow> (js_error + (string \<rightharpoonup> bool)) \<times> string list list \<times> world" where
  "fetchAllSnapVerifications api snapPackages w =
     batches_loop api (unique_of snapPackages) 0 Map.empty [] w"

section \<open>The hook \<open>useVerification\<close>\<close>

text \<open>
  The four state variables of lines 28-31 and the ref of line 34. \<open>DistroId\<close> is declared
  outside the files at hand; a distro tag is a string here.
\<close>

record hook_state =
  isLoading :: bool
  hasError :: bool
  flathubLoaded :: bool
  snapLoaded :: bool
  fetchedRef :: bool

definition initial_hook :: hook_state where
  "initial_hook = \<lparr>isLoading = True, hasError = False, flathubLoaded = False,
     snapLoaded = False, fetchedRef = False\<rparr>"

text \<open>\<open>fetchVerificationData\<close>, lines 41-58: \<open>try\<close>, \<open>catch\<close> and \<open>finally\<close>.\<close>

definition fetchVerificationData ::
  "flathub_api \<Rightarrow> hook_state \<Rightarrow> world \<Rightarrow> hook_state \<times> world" where
  "fetchVerificationData api h w =
     (case fetchFlathubVerifiedApps api w of
        (Inr apps, w') \<Rightarrow>
          (h\<lparr>flathubLoaded := True, snapLoaded := True, isLoading := False\<rparr>, w')
      | (Inl e, w') \<Rightarrow>
          (h\<lparr>hasError := True, snapLoaded := True, isLoading := False\<rparr>, w'))"

text \<open>The effect of lines 37-61, with its one-shot guard.\<close>

definition mount_effect :: "flathub_api \<Rightarrow> hook_state \<Rightarrow> world \<Rightarrow> hook_state \<times> world" where
  "mount_effect api h w =
     (if fetchedRef h then (h, w)
      else fetchVerificationData api (h\<lparr>fetchedRef := True\<rparr>) w)"

text \<open>\<open>isVerified\<close>, lines 64-72.\<close>

definition isVerified :: "hook_state \<Rightarrow> world \<Rightarrow> string \<Rightarrow> string \<Rightarrow> bool" where
  "isVerified h w distro packageName =
     (if distro = ''flatpak'' \<and> flathubLoaded h then isFlathubVerified w packageName
      else if distro = ''snap'' \<and> snapLoaded h then isSnapVerified w packageName
      else False)"

datatype verification_type = Tag_flathub | Tag_snap

text \<open>\<open>getVerificationType\<close>, lines 75-83; \<open>null\<close> is \<open>None\<close>.\<close>

definition getVerificationType ::
  "hook_state \<Rightarrow> world \<Rightarrow> string \<Rightarrow> string \<Rightarrow> verification_type option" where
  "getVerificationType h w distro packageName =
     (if distro = ''flatpak'' \<and> flathubLoaded h \<and> isFlathubVerified w packageName
      then Some Tag_flathub
      else if distro = ''snap'' \<and> snapLoaded h \<and> isSnapVerified w packageName
      then Some Tag_snap
      else None)"

section \<open>The unfree-package detector of \<open>src/lib/nixUnfree.ts\<close>\<close>

text \<open>\<open>KNOWN_UNFREE_PACKAGES\<close>, lines 3-24.\<close>

definition KNOWN_UNFREE_PACKAGES :: "string list" where
  "KNOWN_UNFREE_PACKAGES =
    [''discord'', ''slack'', ''zoom-us'', ''teams'', ''skypeforlinux'', ''google-chrome'',
     ''vivaldi'', ''opera'', ''spotify'', ''steam'', ''heroic'', ''vscode'', ''sublime4'',
     ''jetbrains.idea-ultimate'', ''jetbrains.webstorm'', ''jetbrains.pycharm-professional'',
     ''nvidia-x11'', ''dropbox'', ''1password'', ''masterpdfeditor'']"

text \<open>\<open>s.startsWith(t)\<close> and \<open>s.includes(t)\<close>.\<close>

fun starts_with :: "string \<Rightarrow> string \<Rightarrow> bool" where
  "starts_with s [] = True"
| "starts_with [] (t # ts) = False"
| "starts_with (c # cs) (t # ts) = (c = t \<and> starts_with cs ts)"

fun str_includes :: "string \<Rightarrow> string \<Rightarrow> bool" where
  "str_includes [] t = (t = [])"
| "str_includes (c # cs) t = (starts_with (c # cs) t \<or> str_includes cs t)"

text \<open>
  \<open>isUnfreePackage\<close>, lines 26-35. The platform's \<open>pkg.trim().toLowerCase()\<close> is the
  parameter \<open>trim_lower\<close>.
\<close>

definition isUnfreePackage :: "(string \<Rightarrow> string) \<Rightarrow> string \<Rightarrow> bool" where
  "isUnfreePackage trim_lower pkg =
     (let cleanPkg = trim_lower pkg in
      if cleanPkg \<in> set KNOWN_UNFREE_PACKAGES then True
      else list_ex (\<lambda>unfree. str_includes cleanPkg unfree) KNOWN_UNFREE_PACKAGES)"

section \<open>Failures of the remote sources\<close>

text \<open>
  An answer of source A that fails before any hit is read: the transport fails, the
  status is not a success, or the payload is malformed (it does not parse, is \<open>null\<close>,
  or has no \<open>hits\<close> to iterate).
\<close>

definition failed_before_hits :: "flathub_response outcome \<Rightarrow> bool" where
  "failed_before_hits r =
     (case r of
        Rejected \<Rightarrow> True
      | Response status b \<Rightarrow>
          \<not> ok status \<or>
          (case b of Unparsable \<Rightarrow> True | Null \<Rightarrow> True | Data d \<Rightarrow> hits d = None))"

text \<open>
  A failed answer of source B: the transport fails, the status is not a success, or
  the payload is malformed (it does not parse, is \<open>null\<close>, or lacks the \<open>snap\<close> or the
  \<open>publisher\<close> object that the interface of lines 20-28 requires).
\<close>

definition lookup_failed :: "snap_info_response outcome \<Rightarrow> bool" where
  "lookup_failed r =
     (case r of
        Rejected \<Rightarrow> True
      | Response status b \<Rightarrow>
          \<not> ok status \<or>
          (case b of
             Unparsable \<Rightarrow> True
           | Null \<Rightarrow> True
           | Data d \<Rightarrow>
               (case snap d of
                  None \<Rightarrow> True
                | Some s \<Rightarrow> (case publisher s of None \<Rightarrow> True | Some p \<Rightarrow> False))))"

section \<open>Concrete environments and states\<close>

text \<open>A source A that answers every page request with HTTP 500.\<close>

definition api_500 :: flathub_api where
  "api_500 ticket page = Response 500 Unparsable"

text \<open>A source A whose every page is empty and reports 1000 pages in all.\<close>

definition api_more :: flathub_api where
  "api_more ticket page = Response 200 (Data \<lparr>hits = Some [], totalPages = Some 1000\<rparr>)"

text \<open>
  A source A that serves page 1 of 2, with one verified app, and answers HTTP 500 to
  every other page request.
\<close>

definition api_fail_page2 :: flathub_api where
  "api_fail_page2 ticket page =
     (if page = 1
      then Response 200
             (Data \<lparr>hits = Some [Some \<lparr>app_id = ''org.a'', verification_verified = True\<rparr>],
                    totalPages = Some 2\<rparr>)
      else Response 500 Unparsable)"

text \<open>
  A source A with a single page, whose content changes after the first request: the
  request with ticket 0 is answered with \<open>org.a\<close>, every later one with \<open>org.b\<close>.
\<close>

definition api_by_ticket :: flathub_api where
  "api_by_ticket ticket page =
     Response 200
       (Data \<lparr>hits = Some [Some \<lparr>app_id = (if ticket = 0 then ''org.a'' else ''org.b''),
                                  verification_verified = True\<rparr>],
              totalPages = Some 1\<rparr>)"

text \<open>The hook once its effect has run with a bulk fetch that returned.\<close>

definition loaded_hook :: hook_state where
  "loaded_hook = \<lparr>isLoading = False, hasError = False, flathubLoaded = True,
     snapLoaded = True, fetchedRef = True\<rparr>"

text \<open>A source B that reports every publisher as verified, and one that is unreachable.\<close>

definition snap_api_verified :: snap_api where
  "snap_api_verified ticket name =
     Response 200 (Data (SnapInfoResponse (Some (Snap (Some (Publisher (Some ''verified'')))))))"

definition snap_api_down :: snap_api where
  "snap_api_down ticket name = Rejected"

text \<open>
  The state after the hook's effect (against \<open>api_500\<close>) and one per-item fetch of
  \<open>foo --classic\<close> that source B answers with a verified publisher.
\<close>

definition qualified_world :: world where
  "qualified_world =
     snd (fetchSnapVerification snap_api_verified ''foo --classic''
            (snd (mount_effect api_500 initial_hook initial_world)))"

text \<open>The state after per-item fetches of \<open>foo\<close> and then of \<open>foo --classic\<close>.\<close>

definition two_fetches_world :: world where
  "two_fetches_world =
     snd (fetchSnapVerification snap_api_verified ''foo --classic''
            (snd (fetchSnapVerification snap_api_verified ''foo'' initial_world)))"

text \<open>
  Two overlapping calls of the bulk fetch, A and B, from the initial state: A starts,
  B starts before A's request is answered, then A's answer arrives and A returns, then
  B's answer arrives and B returns.
\<close>

definition overlap_A_started :: "bulk_task \<times> world" where
  "overlap_A_started = bulk_call initial_world"

definition overlap_B_started :: "bulk_task \<times> world" where
  "overlap_B_started = bulk_call (snd overlap_A_started)"

definition overlap_A_done :: "bulk_task \<times> world" where
  "overlap_A_done = bulk_resume api_by_ticket (fst overlap_A_started) (snd overlap_B_started)"

definition overlap_B_done :: "bulk_task \<times> world" where
  "overlap_B_done = bulk_resume api_by_ticket (fst overlap_B_started) (snd overlap_A_done)"


section \<open>The bulk fetch returns\<close>

lemma fetchFlathubVerifiedApps_returns:
  "\<exists>apps. fst (fetchFlathubVerifiedApps api w) = Inr apps"
  by (simp add: fetchFlathubVerifiedApps_def split: option.splits prod.splits)

lemma fetchFlathubVerifiedApps_result:
  "\<exists>apps. fetchFlathubVerifiedApps api w = (Inr apps, snd (fetchFlathubVerifiedApps api w)) \<and>
     flathubVerifiedCache (snd (fetchFlathubVerifiedApps api w)) = Some apps"
  by (auto simp: fetchFlathubVerifiedApps_def split: option.splits prod.splits)

lemma fetchFlathubVerifiedApps_cached:
  "flathubVerifiedCache w = Some apps \<Longrightarrow> fetchFlathubVerifiedApps api w = (Inr apps, w)"
  by (simp add: fetchFlathubVerifiedApps_def)

lemma pages_loop_stops:
  "page_turn (api (length log) page) page apps = Leave a \<Longrightarrow>
     pages_loop api page apps log = (None, a, log @ [Flathub_Page page 250])"
  "page_turn (api (length log) page) page apps = Throw e a \<Longrightarrow>
     pages_loop api page apps log = (Some e, a, log @ [Flathub_Page page 250])"
  by (simp_all add: pages_loop.simps[of api page])

lemma page_turn_failed:
  "failed_before_hits r \<Longrightarrow>
     page_turn r page apps = Leave apps \<or> (\<exists>e. page_turn r page apps = Throw e apps)"
  by (auto simp: failed_before_hits_def page_turn_def split: outcome.splits body.splits)

lemma fetch_failed_page1:
  assumes "flathubVerifiedCache w = None" and "failed_before_hits (api (length (requests w)) 1)"
  shows "fst (fetchFlathubVerifiedApps api w) = Inr {}"
proof -
  from page_turn_failed[OF assms(2), of 1 "{}"]
  have "snd (pages_loop api 1 {} (requests w)) = ({}, requests w @ [Flathub_Page 1 250])"
    by (auto simp: pages_loop_stops)
  with assms(1) show ?thesis
    by (auto simp: fetchFlathubVerifiedApps_def split: prod.splits)
qed

section \<open>The hook's effect\<close>

text \<open>
  The bulk fetch never rejects, so the \<open>catch\<close> of lines 50-54 is never entered: the
  effect leaves \<open>hasError\<close> as it found it, whatever source A answers.
\<close>

lemma mount_effect_hasError:
  "hasError (fst (mount_effect api h w)) = hasError h"
  using fetchFlathubVerifiedApps_returns[of api w]
  by (auto simp: mount_effect_def fetchVerificationData_def split: prod.splits sum.splits)

text \<open>
  C1. Source A answers HTTP 500 to the request for page 1, and the effect runs from
  the initial state. Afterwards \<open>flathubLoaded\<close> and \<open>snapLoaded\<close> are true,
  \<open>isLoading\<close> is false, the bulk set is empty, so that no identifier is verified for
  flatpak, and nothing was raised, as the claim says; but \<open>hasError\<close> is false, where
  the claim and the doc comment of the field (whether an error occurred during fetch)
  have it true.
\<close>

theorem mount_http_500:
  "mount_effect api_500 initial_hook initial_world =
    (\<lparr>isLoading = False, hasError = False, flathubLoaded = True, snapLoaded = True,
      fetchedRef = True\<rparr>,
     \<lparr>flathubVerifiedCache = Some {}, snapVerifiedCache = Map.empty,
      requests = [Flathub_Page 1 250]\<rparr>)"
  by (simp add: mount_effect_def fetchVerificationData_def fetchFlathubVerifiedApps_def
      initial_hook_def initial_world_def pages_loop.simps page_turn_def api_500_def ok_def)

text \<open>
  The rest of what the effect does, whatever source A answers: when it runs (its latch
  not yet set), the bulk fetch returns a set without raising; afterwards
  \<open>flathubLoaded\<close> and \<open>snapLoaded\<close> are true, \<open>isLoading\<close> is false, and an
  identifier is verified for flatpak exactly when it is in that set. When the cache
  was empty and the answer to the request for page 1 fails before a hit is read, the
  set is empty.
\<close>

lemma mount_degrades:
  "\<not> fetchedRef h \<longrightarrow>
     (\<exists>apps. fst (fetchFlathubVerifiedApps api w) = Inr apps \<and>
        flathubLoaded (fst (mount_effect api h w)) \<and>
        snapLoaded (fst (mount_effect api h w)) \<and>
        \<not> isLoading (fst (mount_effect api h w)) \<and>
        flathubVerifiedCache (snd (mount_effect api h w)) = Some apps \<and>
        (\<forall>packageName.
           isVerified (fst (mount_effect api h w)) (snd (mount_effect api h w)) ''flatpak'' packageName =
             (packageName \<in> apps)) \<and>
        (flathubVerifiedCache w = None \<and> failed_before_hits (api (length (requests w)) 1) \<longrightarrow>
           apps = {}))"
proof
  assume h: "\<not> fetchedRef h"
  from fetchFlathubVerifiedApps_result[of api w] obtain apps w' where
    f: "fetchFlathubVerifiedApps api w = (Inr apps, w')" "flathubVerifiedCache w' = Some apps"
    by metis
  have m: "mount_effect api h w =
      (h\<lparr>fetchedRef := True, flathubLoaded := True, snapLoaded := True, isLoading := False\<rparr>, w')"
    using h f(1) by (simp add: mount_effect_def fetchVerificationData_def)
  have e: "apps = {}"
    if "flathubVerifiedCache w = None \<and> failed_before_hits (api (length (requests w)) 1)"
    using fetch_failed_page1[of w api] that f(1) by simp
  show "\<exists>apps. fst (fetchFlathubVerifiedApps api w) = Inr apps \<and>
        flathubLoaded (fst (mount_effect api h w)) \<and>
        snapLoaded (fst (mount_effect api h w)) \<and>
        \<not> isLoading (fst (mount_effect api h w)) \<and>
        flathubVerifiedCache (snd (mount_effect api h w)) = Some apps \<and>
        (\<forall>packageName.
           isVerified (fst (mount_effect api h w)) (snd (mount_effect api h w)) ''flatpak'' packageName =
             (packageName \<in> apps)) \<and>
        (flathubVerifiedCache w = None \<and> failed_before_hits (api (length (requests w)) 1) \<longrightarrow>
           apps = {})"
    apply (rule exI[of _ apps])
    using e by (simp add: m f isVerified_def isFlathubVerified_def)
qed

text \<open>
  A failure on a later page keeps what the earlier pages gave: source A serves page 1
  with the verified app \<open>org.a\<close> and answers HTTP 500 on page 2; \<open>org.a\<close> is verified
  for flatpak afterwards, and \<open>hasError\<close> is false here too.
\<close>

lemma mount_partial:
  "api_fail_page2 1 2 = Response 500 Unparsable \<and>
   mount_effect api_fail_page2 initial_hook initial_world =
     (\<lparr>isLoading = False, hasError = False, flathubLoaded = True, snapLoaded = True,
       fetchedRef = True\<rparr>,
      \<lparr>flathubVerifiedCache = Some {''org.a''}, snapVerifiedCache = Map.empty,
       requests = [Flathub_Page 1 250, Flathub_Page 2 250]\<rparr>) \<and>
   isVerified (fst (mount_effect api_fail_page2 initial_hook initial_world))
     (snd (mount_effect api_fail_page2 initial_hook initial_world)) ''flatpak'' ''org.a''"
  by (simp add: mount_effect_def fetchVerificationData_def fetchFlathubVerifiedApps_def
      initial_hook_def initial_world_def pages_loop.simps page_turn_def api_fail_page2_def
      ok_def isVerified_def isFlathubVerified_def)

section \<open>The queries of the hook\<close>

text \<open>
  C10. In every state, \<open>getVerificationType\<close> returns a tag exactly when \<open>isVerified\<close>
  returns true; the tag is \<open>flathub\<close> exactly when, in addition, the distro is
  \<open>flatpak\<close>, and \<open>snap\<close> exactly when it is \<open>snap\<close>.
\<close>

theorem verification_type_iff_verified:
  "(getVerificationType h w distro packageName \<noteq> None) = isVerified h w distro packageName \<and>
   (getVerificationType h w distro packageName = Some Tag_flathub) =
     (isVerified h w distro packageName \<and> distro = ''flatpak'') \<and>
   (getVerificationType h w distro packageName = Some Tag_snap) =
     (isVerified h w distro packageName \<and> distro = ''snap'')"
  by (simp add: getVerificationType_def isVerified_def)

theorem verification_type_iff_verified_witness:
  "(getVerificationType loaded_hook initial_world ''snap'' ''firefox'' \<noteq> None) =
     isVerified loaded_hook initial_world ''snap'' ''firefox'' \<and>
   (getVerificationType loaded_hook initial_world ''snap'' ''firefox'' = Some Tag_flathub) =
     (isVerified loaded_hook initial_world ''snap'' ''firefox'' \<and> ''snap'' = ''flatpak'') \<and>
   (getVerificationType loaded_hook initial_world ''snap'' ''firefox'' = Some Tag_snap) =
     (isVerified loaded_hook initial_world ''snap'' ''firefox'' \<and> ''snap'' = ''snap'')"
  by (rule verification_type_iff_verified)

text \<open>
  C9. While \<open>flathubLoaded\<close> is unset, and also while the bulk set is still \<open>null\<close>,
  both queries answer negatively for flatpak; while \<open>snapLoaded\<close> is unset they answer
  negatively for snap; for any other distro tag they always do. The queries are
  plain lookups in the state: they issue no request and have no failing branch.
\<close>

theorem unloaded_queries_negative:
  "(\<not> flathubLoaded h \<or> flathubVerifiedCache w = None \<longrightarrow>
      isVerified h w ''flatpak'' packageName = False \<and>
      getVerificationType h w ''flatpak'' packageName = None) \<and>
   (\<not> snapLoaded h \<longrightarrow>
      isVerified h w ''snap'' packageName = False \<and>
      getVerificationType h w ''snap'' packageName = None) \<and>
   (distro \<noteq> ''flatpak'' \<and> distro \<noteq> ''snap'' \<longrightarrow>
      isVerified h w distro packageName = False \<and>
      getVerificationType h w distro packageName = None)"
  by (auto simp: isVerified_def getVerificationType_def isFlathubVerified_def
        split: option.splits)

theorem unloaded_queries_negative_witness:
  "(\<not> flathubLoaded initial_hook \<and>
      isVerified initial_hook initial_world ''flatpak'' ''org.mozilla.firefox'' = False \<and>
      getVerificationType initial_hook initial_world ''flatpak'' ''org.mozilla.firefox'' = None) \<and>
   (\<not> snapLoaded initial_hook \<and>
      isVerified initial_hook initial_world ''snap'' ''firefox'' = False \<and>
      getVerificationType initial_hook initial_world ''snap'' ''firefox'' = None) \<and>
   (''apt'' \<noteq> ''flatpak'' \<and> ''apt'' \<noteq> ''snap'' \<and>
      isVerified loaded_hook initial_world ''apt'' ''firefox'' = False \<and>
      getVerificationType loaded_hook initial_world ''apt'' ''firefox'' = None)"
proof -
  have a: "\<not> flathubLoaded initial_hook" and b: "\<not> snapLoaded initial_hook"
    by (simp_all add: initial_hook_def)
  have c: "''apt'' \<noteq> ''flatpak'' \<and> ''apt'' \<noteq> ''snap''" by simp
  note t1 = unloaded_queries_negative
    [of initial_hook initial_world "''org.mozilla.firefox''" "''apt''", THEN conjunct1]
  note t2 = unloaded_queries_negative
    [of initial_hook initial_world "''firefox''" "''apt''", THEN conjunct2, THEN conjunct1]
  note t3 = unloaded_queries_negative
    [of loaded_hook initial_world "''firefox''" "''apt''", THEN conjunct2, THEN conjunct2]
  from a have a': "\<not> flathubLoaded initial_hook \<or> flathubVerifiedCache initial_world = None" ..
  show ?thesis
    using a b c t1[rule_format, OF a'] t2[rule_format, OF b] t3[rule_format, OF c] by blast
qed

section \<open>The static table and the qualifier\<close>

lemma known_split_first:
  "e \<in> set KNOWN_VERIFIED_SNAP_PACKAGES \<Longrightarrow> split_first e = e"
  by (auto simp: KNOWN_VERIFIED_SNAP_PACKAGES_def split_first_def)

lemma split_first_qualified:
  "split_first (base @ CHR '' '' # suffix) = split_first base"
  by (induction base) (simp_all add: split_first_def)

text \<open>
  C2, as the code has it. The table lookup of \<open>isSnapVerified\<close> is an exact match of
  the text before the first space: an identifier that is a table entry, or whose
  canonical form is one, is verified in every state; with an empty per-item cache
  nothing else is, so containing an entry does not suffice.
\<close>

theorem snap_table_lookup_exact:
  "(snapName \<in> set KNOWN_VERIFIED_SNAP_PACKAGES \<or>
    split_first snapName \<in> set KNOWN_VERIFIED_SNAP_PACKAGES \<longrightarrow> isSnapVerified w snapName) \<and>
   (snapVerifiedCache w = Map.empty \<longrightarrow>
      isSnapVerified w snapName = (split_first snapName \<in> set KNOWN_VERIFIED_SNAP_PACKAGES))"
  using known_split_first[of snapName]
  by (auto simp: isSnapVerified_def Let_def)

theorem snap_table_lookup_exact_witness:
  "(''code'' \<in> set KNOWN_VERIFIED_SNAP_PACKAGES \<or>
    split_first ''code'' \<in> set KNOWN_VERIFIED_SNAP_PACKAGES) \<and>
   isSnapVerified initial_world ''code'' \<and>
   snapVerifiedCache initial_world = Map.empty \<and>
   isSnapVerified initial_world ''golang-go'' =
     (split_first ''golang-go'' \<in> set KNOWN_VERIFIED_SNAP_PACKAGES)"
proof -
  have a: "''code'' \<in> set KNOWN_VERIFIED_SNAP_PACKAGES \<or>
    split_first ''code'' \<in> set KNOWN_VERIFIED_SNAP_PACKAGES"
    by (simp add: KNOWN_VERIFIED_SNAP_PACKAGES_def)
  have b: "snapVerifiedCache initial_world = Map.empty"
    by (simp add: initial_world_def)
  from snap_table_lookup_exact[of "''code''" initial_world, THEN conjunct1, rule_format, OF a]
    snap_table_lookup_exact[of "''golang-go''" initial_world, THEN conjunct2, rule_format, OF b]
    a b
  show ?thesis by blast
qed

text \<open>
  C2 as stated fails: \<open>go\<close> is a table entry and \<open>golang-go\<close> contains it, yet
  \<open>golang-go\<close> is not verified for snap, neither by \<open>isSnapVerified\<close> nor through the
  hook with source B loaded.
\<close>

theorem snap_table_substring_counterexample:
  "''go'' \<in> set KNOWN_VERIFIED_SNAP_PACKAGES \<and> ''golang-go'' = ''go'' @ ''lang-go'' \<and>
   \<not> isSnapVerified initial_world ''golang-go'' \<and>
   \<not> isVerified loaded_hook initial_world ''snap'' ''golang-go''"
  by (simp add: KNOWN_VERIFIED_SNAP_PACKAGES_def isSnapVerified_def isVerified_def
      initial_world_def split_first_def loaded_hook_def)

lemma isSnapVerified_qualified:
  "isSnapVerified w (base @ '' '' @ suffix) =
     (split_first base \<in> set KNOWN_VERIFIED_SNAP_PACKAGES \<or>
      (case snapVerifiedCache w (split_first base) of
         Some b \<Rightarrow> b
       | None \<Rightarrow> snapVerifiedCache w (base @ '' '' @ suffix) = Some True))"
  by (auto simp: isSnapVerified_def Let_def split_first_qualified split: option.splits)

lemma isSnapVerified_plain:
  "isSnapVerified w base =
     (split_first base \<in> set KNOWN_VERIFIED_SNAP_PACKAGES \<or>
      (case snapVerifiedCache w (split_first base) of
         Some b \<Rightarrow> b
       | None \<Rightarrow> snapVerifiedCache w base = Some True))"
  by (auto simp: isSnapVerified_def Let_def split: option.splits)

text \<open>The hook's effect leaves the per-item cache as it is.\<close>

lemma mount_effect_snap_cache:
  "snapVerifiedCache (snd (mount_effect api h w)) = snapVerifiedCache w"
  by (simp add: mount_effect_def fetchVerificationData_def fetchFlathubVerifiedApps_def
      split: prod.splits sum.splits option.splits)

text \<open>
  C3, as the code has it. The answers for \<open>base\<close> and for \<open>base\<close> with a qualifier
  are the same exactly when source B is not loaded, or the canonical identifier is
  in the table or has a cache entry, or the cache holds \<open>true\<close> under both raw texts
  or under neither. In particular they are the same whenever the per-item cache is
  empty.
\<close>

theorem qualifier_stripping_exact:
  "((isVerified h w ''snap'' (base @ '' '' @ suffix) = isVerified h w ''snap'' base) =
     (\<not> snapLoaded h \<or>
      split_first base \<in> set KNOWN_VERIFIED_SNAP_PACKAGES \<or>
      snapVerifiedCache w (split_first base) \<noteq> None \<or>
      (snapVerifiedCache w (base @ '' '' @ suffix) = Some True) =
        (snapVerifiedCache w base = Some True))) \<and>
   (snapVerifiedCache w = Map.empty \<longrightarrow>
      isVerified h w ''snap'' (base @ '' '' @ suffix) = isVerified h w ''snap'' base)"
  unfolding isVerified_def isSnapVerified_qualified isSnapVerified_plain[of w base]
  by (auto split: option.splits)

theorem qualifier_stripping_exact_witness:
  "split_first ''code'' \<in> set KNOWN_VERIFIED_SNAP_PACKAGES \<and>
   isVerified loaded_hook qualified_world ''snap'' (''code'' @ '' '' @ ''--classic'') =
     isVerified loaded_hook qualified_world ''snap'' ''code'' \<and>
   snapVerifiedCache initial_world = Map.empty \<and>
   isVerified loaded_hook initial_world ''snap'' (''foo'' @ '' '' @ ''--classic'') =
     isVerified loaded_hook initial_world ''snap'' ''foo''"
proof -
  have a: "split_first ''code'' \<in> set KNOWN_VERIFIED_SNAP_PACKAGES"
    by (simp add: KNOWN_VERIFIED_SNAP_PACKAGES_def split_first_def)
  then have a': "\<not> snapLoaded loaded_hook \<or>
      split_first ''code'' \<in> set KNOWN_VERIFIED_SNAP_PACKAGES \<or>
      snapVerifiedCache qualified_world (split_first ''code'') \<noteq> None \<or>
      (snapVerifiedCache qualified_world (''code'' @ '' '' @ ''--classic'') = Some True) =
        (snapVerifiedCache qualified_world ''code'' = Some True)"
    by blast
  have b: "snapVerifiedCache initial_world = Map.empty"
    by (simp add: initial_world_def)
  note t = qualifier_stripping_exact
  from t[THEN conjunct1, THEN iffD2, OF a']
    t[where h = loaded_hook and w = initial_world and base = "''foo''" and suffix = "''--classic''",
      THEN conjunct2, rule_format, OF b]
    a b
  show ?thesis by blast
qed

lemma qualified_world_eq:
  "qualified_world = \<lparr>flathubVerifiedCache = Some {},
      snapVerifiedCache = [''foo --classic'' \<mapsto> True],
      requests = [Flathub_Page 1 250, Snap_Info ''foo'']\<rparr>"
  by (simp add: qualified_world_def mount_effect_def fetchVerificationData_def
      fetchFlathubVerifiedApps_def initial_hook_def initial_world_def pages_loop.simps
      page_turn_def ok_def fetchSnapVerification_def snap_try_def snap_api_verified_def
      api_500_def split_first_def Let_def)

text \<open>
  C3 as stated fails in a reachable state: after a per-item fetch of \<open>foo --classic\<close>
  that source B answers with a verified publisher, the cache holds \<open>true\<close> under the
  qualified text only, and the hook verifies \<open>foo --classic\<close> but not \<open>foo\<close>.
\<close>

theorem qualifier_stripping_counterexample:
  "isVerified loaded_hook qualified_world ''snap'' (''foo'' @ '' '' @ ''--classic'') \<and>
   \<not> isVerified loaded_hook qualified_world ''snap'' ''foo''"
  by (simp add: qualified_world_eq isVerified_def loaded_hook_def isSnapVerified_def
      split_first_def KNOWN_VERIFIED_SNAP_PACKAGES_def)

section \<open>The pagination loop\<close>

lemma pages_loop_log:
  "pages_loop api page apps log = (e, apps', log') \<Longrightarrow>
     \<exists>k. 1 \<le> k \<and> (page \<le> 10 \<longrightarrow> page + k \<le> 11) \<and>
         log' = log @ map (\<lambda>p. Flathub_Page p 250) [page..<page + k]"
proof (induction api page apps log arbitrary: e apps' log' rule: pages_loop.induct)
  case (1 api page verifiedApps log)
  show ?case
  proof (cases "page_turn (api (length log) page) page verifiedApps")
    case (Continue p a)
    then have p: "p = page + 1" "p \<le> 10" using page_turn_Continue by blast+
    from "1.prems" Continue
    have "pages_loop api p a (log @ [Flathub_Page page 250]) = (e, apps', log')"
      by (simp add: pages_loop.simps[of api page])
    from "1.IH"[OF refl refl Continue this] obtain k where
      k: "1 \<le> k" "p \<le> 10 \<longrightarrow> p + k \<le> 11"
         "log' = (log @ [Flathub_Page page 250]) @ map (\<lambda>p. Flathub_Page p 250) [p..<p + k]"
      by blast
    show ?thesis
      apply (rule exI[of _ "Suc k"])
      using k p by (simp add: upt_conv_Cons)
  next
    case (Leave a)
    with "1.prems" have "log' = log @ [Flathub_Page page 250]"
      by (simp add: pages_loop.simps[of api page])
    then show ?thesis by (intro exI[of _ 1]) simp
  next
    case (Throw x a)
    with "1.prems" have "log' = log @ [Flathub_Page page 250]"
      by (simp add: pages_loop.simps[of api page])
    then show ?thesis by (intro exI[of _ 1]) simp
  qed
qed

text \<open>
  C6. Whatever source A answers, one call of the bulk fetch returns (the loop is a
  total function: each turn raises the page number, and no turn goes on past page
  10) having issued the requests for pages 1 to \<open>k\<close> in this order, for some \<open>k\<close> of
  at most 10, each with \<open>per_page=250\<close>.
\<close>

theorem bulk_fetch_at_most_10_pages:
  "\<exists>k. k \<le> 10 \<and>
     requests (snd (fetchFlathubVerifiedApps api w)) =
       requests w @ map (\<lambda>p. Flathub_Page p 250) [1..<Suc k]"
proof (cases "flathubVerifiedCache w")
  case (Some c)
  then show ?thesis
    by (intro exI[of _ 0]) (simp add: fetchFlathubVerifiedApps_def)
next
  case None
  obtain e apps log where l: "pages_loop api 1 {} (requests w) = (e, apps, log)"
    by (metis prod_cases3)
  from pages_loop_log[OF l] obtain k where
    k: "1 + k \<le> 11" "log = requests w @ map (\<lambda>p. Flathub_Page p 250) [1..<1 + k]"
    by auto
  show ?thesis
    apply (rule exI[of _ k])
    using k None l by (simp add: fetchFlathubVerifiedApps_def)
qed

text \<open>Against a source that always reports more pages, the call stops after page 10.\<close>

theorem bulk_fetch_at_most_10_pages_witness:
  "(\<exists>k. k \<le> 10 \<and>
     requests (snd (fetchFlathubVerifiedApps api_more initial_world)) =
       requests initial_world @ map (\<lambda>p. Flathub_Page p 250) [1..<Suc k]) \<and>
   requests (snd (fetchFlathubVerifiedApps api_more initial_world)) =
     [Flathub_Page 1 250, Flathub_Page 2 250, Flathub_Page 3 250, Flathub_Page 4 250,
      Flathub_Page 5 250, Flathub_Page 6 250, Flathub_Page 7 250, Flathub_Page 8 250,
      Flathub_Page 9 250, Flathub_Page 10 250]"
proof (rule conjI)
  show "\<exists>k. k \<le> 10 \<and>
     requests (snd (fetchFlathubVerifiedApps api_more initial_world)) =
       requests initial_world @ map (\<lambda>p. Flathub_Page p 250) [1..<Suc k]"
    by (rule bulk_fetch_at_most_10_pages)
  show "requests (snd (fetchFlathubVerifiedApps api_more initial_world)) =
     [Flathub_Page 1 250, Flathub_Page 2 250, Flathub_Page 3 250, Flathub_Page 4 250,
      Flathub_Page 5 250, Flathub_Page 6 250, Flathub_Page 7 250, Flathub_Page 8 250,
      Flathub_Page 9 250, Flathub_Page 10 250]"
    by (simp add: fetchFlathubVerifiedApps_def initial_world_def pages_loop.simps
        page_turn_def api_more_def ok_def)
qed

section \<open>The substring rule of the unfree-package detector\<close>

lemma starts_with_iff: "starts_with s t = (\<exists>q. s = t @ q)"
  by (induction s t rule: starts_with.induct) auto

lemma str_includes_iff: "str_includes s t = (\<exists>p q. s = p @ t @ q)"
proof (induction s)
  case Nil
  show ?case by simp
next
  case (Cons c cs)
  show ?case
  proof
    assume "str_includes (c # cs) t"
    then consider "starts_with (c # cs) t" | "str_includes cs t" by auto
    then show "\<exists>p q. c # cs = p @ t @ q"
    proof cases
      case 1
      then obtain q where "c # cs = t @ q" by (auto simp: starts_with_iff)
      then have "c # cs = [] @ t @ q" by simp
      then show ?thesis by blast
    next
      case 2
      then obtain p q where "cs = p @ t @ q" using Cons.IH by auto
      then have "c # cs = (c # p) @ t @ q" by simp
      then show ?thesis by blast
    qed
  next
    assume "\<exists>p q. c # cs = p @ t @ q"
    then obtain p q where pq: "c # cs = p @ t @ q" by blast
    show "str_includes (c # cs) t"
    proof (cases p)
      case Nil
      with pq have "starts_with (c # cs) t" by (auto simp: starts_with_iff)
      then show ?thesis by simp
    next
      case (Cons a p')
      with pq have "cs = p' @ t @ q" by simp
      then have "str_includes cs t" using Cons.IH by blast
      then show ?thesis by simp
    qed
  qed
qed

text \<open>
  The rule that an identifier containing a table entry counts as present is the rule
  of \<open>isUnfreePackage\<close> and its table, not of the source-B query.
\<close>

lemma isUnfreePackage_substring:
  "isUnfreePackage trim_lower pkg =
     (\<exists>unfree \<in> set KNOWN_UNFREE_PACKAGES. \<exists>p q. trim_lower pkg = p @ unfree @ q)"
proof -
  have "trim_lower pkg \<in> set KNOWN_UNFREE_PACKAGES \<Longrightarrow>
      \<exists>unfree \<in> set KNOWN_UNFREE_PACKAGES. \<exists>p q. trim_lower pkg = p @ unfree @ q"
    by (metis append_Nil append_Nil2)
  then show ?thesis
    by (auto simp: isUnfreePackage_def Let_def list_ex_iff str_includes_iff)
qed

section \<open>The per-item fetch and its cache\<close>

lemma fetchSnapVerification_cached:
  "snapVerifiedCache w snapName = Some b \<Longrightarrow> fetchSnapVerification api snapName w = (Inr b, w)"
  by (simp add: fetchSnapVerification_def)

lemma fetchSnapVerification_uncached:
  assumes "snapVerifiedCache w snapName = None"
  shows "\<exists>v. fetchSnapVerification api snapName w =
       (Inr v, w\<lparr>snapVerifiedCache := (snapVerifiedCache w)(snapName \<mapsto> v),
                requests := requests w @ [Snap_Info (split_first snapName)]\<rparr>)"
proof (cases "snap_try (api (length (requests w)) (split_first snapName))")
  case (Inl e)
  with assms show ?thesis
    by (intro exI[of _ False]) (simp add: fetchSnapVerification_def Let_def)
next
  case (Inr v)
  with assms show ?thesis
    by (intro exI[of _ v]) (simp add: fetchSnapVerification_def Let_def)
qed

text \<open>
  C4, as the code has it. The per-item fetch reads and writes the cache under its
  input as given: a cached input is answered from the cache with no request and no
  change of state; an input not cached causes exactly one request, addressed to the
  canonical identifier, and its result is cached under the input itself. A second
  call with the same input returns the same result and changes nothing, whatever
  source B would answer by then.
\<close>

theorem per_item_cache_keyed_by_input:
  "(snapVerifiedCache w snapName = Some b \<longrightarrow>
      fetchSnapVerification api snapName w = (Inr b, w)) \<and>
   (snapVerifiedCache w snapName = None \<longrightarrow>
      (\<exists>v. fetchSnapVerification api snapName w =
         (Inr v, w\<lparr>snapVerifiedCache := (snapVerifiedCache w)(snapName \<mapsto> v),
                  requests := requests w @ [Snap_Info (split_first snapName)]\<rparr>))) \<and>
   fetchSnapVerification api' snapName (snd (fetchSnapVerification api snapName w)) =
     fetchSnapVerification api snapName w"
proof (intro conjI impI)
  assume "snapVerifiedCache w snapName = Some b"
  then show "fetchSnapVerification api snapName w = (Inr b, w)"
    by (rule fetchSnapVerification_cached)
next
  assume "snapVerifiedCache w snapName = None"
  then show "\<exists>v. fetchSnapVerification api snapName w =
         (Inr v, w\<lparr>snapVerifiedCache := (snapVerifiedCache w)(snapName \<mapsto> v),
                  requests := requests w @ [Snap_Info (split_first snapName)]\<rparr>)"
    by (rule fetchSnapVerification_uncached)
next
  show "fetchSnapVerification api' snapName (snd (fetchSnapVerification api snapName w)) =
     fetchSnapVerification api snapName w"
  proof (cases "snapVerifiedCache w snapName")
    case None
    from fetchSnapVerification_uncached[OF None, of api] obtain v where
      v: "fetchSnapVerification api snapName w =
       (Inr v, w\<lparr>snapVerifiedCache := (snapVerifiedCache w)(snapName \<mapsto> v),
                requests := requests w @ [Snap_Info (split_first snapName)]\<rparr>)" ..
    show ?thesis
      unfolding v by (simp add: fetchSnapVerification_cached)
  next
    case (Some b)
    then show ?thesis by (simp add: fetchSnapVerification_cached)
  qed
qed

theorem per_item_cache_keyed_by_input_witness:
  "snapVerifiedCache initial_world ''foo --classic'' = None \<and>
   (\<exists>v. fetchSnapVerification snap_api_verified ''foo --classic'' initial_world =
      (Inr v, initial_world\<lparr>snapVerifiedCache :=
                 (snapVerifiedCache initial_world)(''foo --classic'' \<mapsto> v),
               requests := requests initial_world @ [Snap_Info (split_first ''foo --classic'')]\<rparr>)) \<and>
   snapVerifiedCache qualified_world ''foo --classic'' = Some True \<and>
   fetchSnapVerification snap_api_down ''foo --classic'' qualified_world = (Inr True, qualified_world)"
proof -
  have a: "snapVerifiedCache initial_world ''foo --classic'' = None"
    by (simp add: initial_world_def)
  have b: "snapVerifiedCache qualified_world ''foo --classic'' = Some True"
    by (simp add: qualified_world_eq)
  note t = per_item_cache_keyed_by_input
  from t[of initial_world "''foo --classic''" True snap_api_verified snap_api_down,
        THEN conjunct2, THEN conjunct1, rule_format, OF a]
    t[of qualified_world "''foo --classic''" True snap_api_down snap_api_down,
        THEN conjunct1, rule_format, OF b] a b
  show ?thesis by blast
qed

text \<open>
  C4 as stated fails: per-item fetches of \<open>foo\<close> and then of \<open>foo --classic\<close> issue
  two requests, both for \<open>foo\<close>, and leave two cache entries; and a fetch of
  \<open>foo --classic\<close> alone leaves no entry under the canonical identifier \<open>foo\<close>.
\<close>

theorem per_item_canonical_key_counterexample:
  "requests two_fetches_world = [Snap_Info ''foo'', Snap_Info ''foo''] \<and>
   dom (snapVerifiedCache two_fetches_world) = {''foo --classic'', ''foo''} \<and>
   snapVerifiedCache qualified_world (split_first ''foo --classic'') = None"
  by (simp add: qualified_world_eq two_fetches_world_def fetchSnapVerification_def
      initial_world_def snap_try_def snap_api_verified_def ok_def split_first_def Let_def)

text \<open>
  C7. The per-item fetch returns a value on every input and never raises. When the
  input is not cached, so that the remote lookup takes place, and the lookup fails
  (transport failure, error status, malformed payload), it returns \<open>false\<close> and
  records \<open>false\<close> in the cache under that input.
\<close>

theorem per_item_failure_false:
  "(\<exists>b. fst (fetchSnapVerification api snapName w) = Inr b) \<and>
   (snapVerifiedCache w snapName = None \<and>
    lookup_failed (api (length (requests w)) (split_first snapName)) \<longrightarrow>
      fetchSnapVerification api snapName w =
        (Inr False, w\<lparr>snapVerifiedCache := (snapVerifiedCache w)(snapName \<mapsto> False),
                      requests := requests w @ [Snap_Info (split_first snapName)]\<rparr>))"
proof (rule conjI)
  show "\<exists>b. fst (fetchSnapVerification api snapName w) = Inr b"
    by (auto simp: fetchSnapVerification_def Let_def split: option.splits sum.splits)
  show "snapVerifiedCache w snapName = None \<and>
    lookup_failed (api (length (requests w)) (split_first snapName)) \<longrightarrow>
      fetchSnapVerification api snapName w =
        (Inr False, w\<lparr>snapVerifiedCache := (snapVerifiedCache w)(snapName \<mapsto> False),
                      requests := requests w @ [Snap_Info (split_first snapName)]\<rparr>)"
    by (auto simp: fetchSnapVerification_def Let_def lookup_failed_def snap_try_def
          split: outcome.splits body.splits option.splits sum.splits if_splits)
qed

theorem per_item_failure_false_witness:
  "snapVerifiedCache initial_world ''code --classic'' = None \<and>
   lookup_failed (snap_api_down (length (requests initial_world)) (split_first ''code --classic'')) \<and>
   (\<exists>b. fst (fetchSnapVerification snap_api_down ''code --classic'' initial_world) = Inr b) \<and>
   fetchSnapVerification snap_api_down ''code --classic'' initial_world =
     (Inr False,
      initial_world\<lparr>snapVerifiedCache :=
          (snapVerifiedCache initial_world)(''code --classic'' \<mapsto> False),
        requests := requests initial_world @ [Snap_Info (split_first ''code --classic'')]\<rparr>)"
proof -
  have a: "snapVerifiedCache initial_world ''code --classic'' = None \<and>
   lookup_failed (snap_api_down (length (requests initial_world)) (split_first ''code --classic''))"
    by (simp add: initial_world_def lookup_failed_def snap_api_down_def)
  note t = per_item_failure_false[of snap_api_down "''code --classic''" initial_world]
  from t[THEN conjunct1] t[THEN conjunct2, rule_format, OF a] a
  show ?thesis by blast
qed

section \<open>Batches and keys of the many-item fetch\<close>















section \<open>Repeated and overlapping bulk fetches\<close>

text \<open>
  The task model agrees with the function: a call that runs alone, resumed until it
  has returned, is \<open>fetchFlathubVerifiedApps\<close>.
\<close>

lemma run_alone_pages_loop:
  "requests w = log @ [Flathub_Page page 250] \<Longrightarrow>
   run_alone api (Awaiting (length log) page apps) w =
     (case pages_loop api page apps log of
        (e, apps', log') \<Rightarrow> (apps', w\<lparr>flathubVerifiedCache := Some apps', requests := log'\<rparr>))"
proof (induction api page apps log arbitrary: w rule: pages_loop.induct)
  case (1 api page verifiedApps log)
  show ?case
  proof (cases "page_turn (api (length log) page) page verifiedApps")
    case (Continue p a)
    let ?w = "w\<lparr>requests := requests w @ [Flathub_Page p 250]\<rparr>"
    have r: "requests ?w = (log @ [Flathub_Page page 250]) @ [Flathub_Page p 250]"
      using "1.prems" by simp
    have "run_alone api (Awaiting (length log) page verifiedApps) w =
          run_alone api (Awaiting (length (log @ [Flathub_Page page 250])) p a) ?w"
      using Continue "1.prems" by (simp add: bulk_resume_def)
    also have "\<dots> = (case pages_loop api p a (log @ [Flathub_Page page 250]) of
        (e, apps', log') \<Rightarrow> (apps', ?w\<lparr>flathubVerifiedCache := Some apps', requests := log'\<rparr>))"
      by (rule "1.IH"[OF refl refl Continue r])
    finally show ?thesis
      using Continue by (simp add: pages_loop.simps[of api page] split: prod.splits)
  next
    case (Leave a)
    then show ?thesis
      using "1.prems"
      by (simp add: pages_loop.simps[of api page] bulk_resume_def)
  next
    case (Throw e a)
    then show ?thesis
      using "1.prems"
      by (simp add: pages_loop.simps[of api page] bulk_resume_def)
  qed
qed

lemma run_alone_is_fetch:
  "fetchFlathubVerifiedApps api w =
     (case run_alone api (fst (bulk_call w)) (snd (bulk_call w)) of (apps, w') \<Rightarrow> (Inr apps, w'))"
proof (cases "flathubVerifiedCache w")
  case None
  have "run_alone api (Awaiting (length (requests w)) 1 {})
          (w\<lparr>requests := requests w @ [Flathub_Page 1 250]\<rparr>) =
     (case pages_loop api 1 {} (requests w) of
        (e, apps', log') \<Rightarrow>
          (apps', w\<lparr>requests := requests w @ [Flathub_Page 1 250]\<rparr>
                   \<lparr>flathubVerifiedCache := Some apps', requests := log'\<rparr>))"
    by (rule run_alone_pages_loop) simp
  with None show ?thesis
    by (simp add: fetchFlathubVerifiedApps_def bulk_call_def split: prod.splits)
next
  case (Some c)
  then show ?thesis
    by (simp add: fetchFlathubVerifiedApps_def bulk_call_def)
qed

lemma fetchSnapVerification_flathub:
  "flathubVerifiedCache (snd (fetchSnapVerification api snapName w)) = flathubVerifiedCache w"
  by (simp add: fetchSnapVerification_def Let_def split: option.splits sum.splits)

lemma fetch_batch_flathub:
  "flathubVerifiedCache (snd (fetch_batch api batch w)) = flathubVerifiedCache w"
proof (induction batch arbitrary: w)
  case Nil
  show ?case by simp
next
  case (Cons pkg rest)
  show ?case
    using Cons.IH[of "snd (fetchSnapVerification api pkg w)"]
      fetchSnapVerification_flathub[of api pkg w]
    by (auto split: prod.splits sum.splits)
qed

lemma batches_loop_flathub:
  "flathubVerifiedCache (snd (snd (batches_loop api uniq i results issued w))) =
     flathubVerifiedCache w"
proof (induction api uniq i results issued w rule: batches_loop.induct)
  case (1 api uniq i results issued w)
  show ?case
  proof (cases "i < length uniq")
    case False
    then show ?thesis by (simp add: batches_loop.simps[of api uniq i])
  next
    case True
    obtain r w' where f: "fetch_batch api (take 5 (drop i uniq)) w = (r, w')"
      by (cases "fetch_batch api (take 5 (drop i uniq)) w")
    have w': "flathubVerifiedCache w' = flathubVerifiedCache w"
      using fetch_batch_flathub[of api "take 5 (drop i uniq)" w] f by simp
    show ?thesis
    proof (cases r)
      case (Inl e)
      with True f w' show ?thesis by (simp add: batches_loop.simps[of api uniq i])
    next
      case (Inr rs)
      from "1.IH"[OF True refl f[symmetric] Inr] True f Inr w'
      show ?thesis by (simp add: batches_loop.simps[of api uniq i])
    qed
  qed
qed

text \<open>
  C5, as the code has it. A call of the bulk fetch returns a set and leaves it in the
  cache, whether or not the network attempt failed. A call that starts after that
  return gives back the same set and changes nothing (it issues no request), whatever
  source A would answer by then; so two calls one after the other make at most one
  traversal and see the same set. The per-item and the many-item fetch leave the set
  as it is; \<open>clearVerificationCache\<close> resets it.
\<close>

theorem bulk_fetch_idempotent_sequential:
  "\<exists>apps. fetchFlathubVerifiedApps api w = (Inr apps, snd (fetchFlathubVerifiedApps api w)) \<and>
     flathubVerifiedCache (snd (fetchFlathubVerifiedApps api w)) = Some apps \<and>
     fetchFlathubVerifiedApps api' (snd (fetchFlathubVerifiedApps api w)) =
       (Inr apps, snd (fetchFlathubVerifiedApps api w)) \<and>
     flathubVerifiedCache
       (snd (fetchSnapVerification sapi snapName (snd (fetchFlathubVerifiedApps api w)))) = Some apps \<and>
     flathubVerifiedCache
       (snd (snd (fetchAllSnapVerifications sapi snapPackages (snd (fetchFlathubVerifiedApps api w))))) =
       Some apps \<and>
     flathubVerifiedCache (clearVerificationCache (snd (fetchFlathubVerifiedApps api w))) = None"
proof -
  from fetchFlathubVerifiedApps_result[of api w] obtain apps where
    a: "fetchFlathubVerifiedApps api w = (Inr apps, snd (fetchFlathubVerifiedApps api w))"
       "flathubVerifiedCache (snd (fetchFlathubVerifiedApps api w)) = Some apps"
    by blast
  show ?thesis
    apply (rule exI[of _ apps])
    using a fetchFlathubVerifiedApps_cached[OF a(2), of api']
    by (simp add: fetchSnapVerification_flathub fetchAllSnapVerifications_def
        batches_loop_flathub clearVerificationCache_def)
qed

lemma fetch_by_ticket:
  "fetchFlathubVerifiedApps api_by_ticket initial_world =
     (Inr {''org.a''},
      \<lparr>flathubVerifiedCache = Some {''org.a''}, snapVerifiedCache = Map.empty,
       requests = [Flathub_Page 1 250]\<rparr>)"
  by (simp add: fetchFlathubVerifiedApps_def initial_world_def pages_loop.simps page_turn_def
      api_by_ticket_def ok_def)

text \<open>
  Two calls in a row, the source having changed in between: one request, and both
  calls return the set of the first.
\<close>

theorem bulk_fetch_idempotent_sequential_witness:
  "(\<exists>apps. fetchFlathubVerifiedApps api_by_ticket initial_world =
       (Inr apps, snd (fetchFlathubVerifiedApps api_by_ticket initial_world)) \<and>
     fetchFlathubVerifiedApps api_500 (snd (fetchFlathubVerifiedApps api_by_ticket initial_world)) =
       (Inr apps, snd (fetchFlathubVerifiedApps api_by_ticket initial_world))) \<and>
   fst (fetchFlathubVerifiedApps api_by_ticket initial_world) = Inr {''org.a''} \<and>
   requests (snd (fetchFlathubVerifiedApps api_by_ticket initial_world)) = [Flathub_Page 1 250]"
proof -
  from bulk_fetch_idempotent_sequential[of api_by_ticket initial_world api_500]
  have "\<exists>apps. fetchFlathubVerifiedApps api_by_ticket initial_world =
       (Inr apps, snd (fetchFlathubVerifiedApps api_by_ticket initial_world)) \<and>
     fetchFlathubVerifiedApps api_500 (snd (fetchFlathubVerifiedApps api_by_ticket initial_world)) =
       (Inr apps, snd (fetchFlathubVerifiedApps api_by_ticket initial_world))"
    by blast
  moreover have "fst (fetchFlathubVerifiedApps api_by_ticket initial_world) = Inr {''org.a''} \<and>
   requests (snd (fetchFlathubVerifiedApps api_by_ticket initial_world)) = [Flathub_Page 1 250]"
    by (simp add: fetch_by_ticket)
  ultimately show ?thesis by (rule conjI)
qed

text \<open>
  C5 as stated fails for calls that overlap: B starts while A waits for its answer,
  finds the cache still \<open>null\<close> and makes a traversal of its own. Two requests are
  issued, A returns \<open>{org.a}\<close> and B returns \<open>{org.b}\<close>, and B's return replaces in
  the cache the set that A's return had left there.
\<close>

theorem bulk_fetch_overlap_counterexample:
  "fst overlap_A_done = Resolved {''org.a''} \<and>
   fst overlap_B_done = Resolved {''org.b''} \<and>
   flathubVerifiedCache (snd overlap_A_done) = Some {''org.a''} \<and>
   flathubVerifiedCache (snd overlap_B_done) = Some {''org.b''} \<and>
   requests (snd overlap_B_done) = [Flathub_Page 1 250, Flathub_Page 1 250] \<and>
   {''org.a''} \<noteq> {''org.b''}"
  by (simp add: overlap_B_done_def overlap_A_done_def overlap_B_started_def
      overlap_A_started_def bulk_call_def bulk_resume_def initial_world_def page_turn_def
      api_by_ticket_def ok_def)

end
